theory Spec2Isabelle
  imports Main "HOL-Library.Word"
begin

section \<open>The group vault of sherlock: data model\<close>

text \<open>
  The sentinel errors of package \<open>internal\<close> (\<open>ErrNotSetup\<close> ... \<open>ErrNoSuchAccount\<close>).
  Every other error value comes from an external collaborator (the file system behind the
  \<open>FileSystem\<close> interface, the \<open>security\<close> codec, \<open>encoding/json\<close>) and is carried as
  \<open>ErrExternal\<close> with its message.
\<close>

datatype error =
    ErrNotSetup
  | ErrNoSuchGroup
  | ErrWrongKey
  | ErrInvalidQuery
  | ErrAccountExists
  | ErrNoSuchAccount
  | ErrExternal string

type_synonym bytes = "8 word list"

text \<open>
  Modelled from the spec: the declaration of the struct \<open>Account\<close> is not among the
  sources. The sources read the fields \<open>Name\<close>, \<open>Tag\<close> and \<open>CreatedOn\<close>; the spec
  (section 3) adds the secret. The creation time is kept as a number (seconds).
\<close>

record Account =
  Name :: string
  Tag :: string
  Secret :: string
  CreatedOn :: int

text \<open>
  \<open>type Group struct { GID string; Accounts []*Account }\<close>. The slice of pointers is a
  list of accounts; a \<open>*Account\<close> obtained from the group is the position of that pointer
  in \<open>Accounts\<close>. A group is only ever built by \<open>NewGroup\<close> or decoded afresh from its
  vault, so no two positions hold the same pointer and none is nil.
\<close>

record Group =
  GID :: string
  Accounts :: "Account list"

definition NewGroup :: "string \<Rightarrow> Group" where
  "NewGroup name = \<lparr>GID = name, Accounts = []\<rparr>"

section \<open>Query resolver\<close>

text \<open>
  \<open>querySplitPoint = "@"\<close> is a one-byte separator. For a separator of one byte
  \<open>strings.Split(s, sep)\<close> repeats: find the first occurrence of the byte in \<open>s\<close>; if
  there is none the rest of \<open>s\<close> is the last piece, otherwise the bytes before it are
  the next piece and the scan goes on behind it.
\<close>

definition querySplitPoint :: char where
  "querySplitPoint = CHR ''@''"

function strings_Split :: "string \<Rightarrow> char \<Rightarrow> string list" where
  "strings_Split s sep =
     (case dropWhile (\<lambda>c. c \<noteq> sep) s of
        [] \<Rightarrow> [s]
      | _ # rest \<Rightarrow> takeWhile (\<lambda>c. c \<noteq> sep) s # strings_Split rest sep)"
  by pat_completeness auto
termination
proof (relation "measure (\<lambda>(s, sep). length s)")
  show "wf (measure (\<lambda>(s, sep). length s))" by simp
next
  fix s :: string and sep :: char and x21 :: char and x22 :: string
  assume d: "dropWhile (\<lambda>c. c \<noteq> sep) s = x21 # x22"
  have "length (dropWhile (\<lambda>c. c \<noteq> sep) s) \<le> length s"
    by (rule length_dropWhile_le)
  with d have "length x22 < length s" by simp
  then show "((x22, sep), (s, sep)) \<in> measure (\<lambda>(s, sep). length s)" by simp
qed

declare strings_Split.simps [simp del]

text \<open>
  \<open>SplitQuery\<close>: the Go function returns \<open>("", "", ErrInvalidQuery)\<close> or
  \<open>(set[0], set[1], nil)\<close>; the error is the left summand.
\<close>

definition SplitQuery :: "string \<Rightarrow> error + (string \<times> string)" where
  "SplitQuery query =
     (let set = strings_Split query querySplitPoint
      in if length set \<noteq> 2 then Inl ErrInvalidQuery
         else Inr (set ! 0, set ! 1))"

section \<open>Group operations\<close>

text \<open>
  A method that changes its receiver through the pointer returns the error together
  with the group as it is after the call.
\<close>

fun exists_loop :: "Account list \<Rightarrow> Account \<Rightarrow> bool" where
  "exists_loop [] account = False"
| "exists_loop (a # as) account =
     (if Name account = Name a \<and> Tag account = Tag a then True
      else exists_loop as account)"

definition Group_exists :: "Group \<Rightarrow> Account \<Rightarrow> bool" where
  "Group_exists g account = exists_loop (Accounts g) account"

definition Group_append :: "Group \<Rightarrow> Account \<Rightarrow> error option \<times> Group" where
  "Group_append g account =
     (if Group_exists g account then (Some ErrAccountExists, g)
      else (None, g\<lparr>Accounts := Accounts g @ [account]\<rparr>))"

text \<open>
  \<open>lookup\<close> returns the pointer held at the first position whose account has the name:
  the loop carries the position \<open>i\<close>.
\<close>

fun lookup_loop :: "Account list \<Rightarrow> string \<Rightarrow> nat \<Rightarrow> error + nat" where
  "lookup_loop [] accountName i = Inl ErrNoSuchAccount"
| "lookup_loop (a # as) accountName i =
     (if Name a = accountName then Inr i else lookup_loop as accountName (Suc i))"

definition Group_lookup :: "Group \<Rightarrow> string \<Rightarrow> error + nat" where
  "Group_lookup g accountName = lookup_loop (Accounts g) accountName 0"

text \<open>
  \<open>delete\<close> runs its loop to the end (there is no \<open>break\<close>) and stores \<open>&i\<close> in
  \<open>offset\<close> at every position whose account has the name. What \<open>*offset\<close> reads after
  the loop depends on the language version of the module, which is not among the
  sources: with one variable \<open>i\<close> for the whole loop (Go before 1.22) every \<open>&i\<close> is the
  same address and holds the last index of the slice; with a fresh \<open>i\<close> in each
  iteration (Go 1.22 and later) it holds the index of the iteration that stored it last.
  \<open>delete_loop\<close> returns the iteration that stored \<open>&i\<close> last, \<open>deref_offset\<close> reads it.
\<close>

datatype loopvar = PerLoop | PerIteration

fun delete_loop :: "Account list \<Rightarrow> string \<Rightarrow> nat \<Rightarrow> nat option \<Rightarrow> nat option" where
  "delete_loop [] account i offset = offset"
| "delete_loop (a # as) account i offset =
     delete_loop as account (Suc i) (if Name a = account then Some i else offset)"

definition deref_offset :: "loopvar \<Rightarrow> Account list \<Rightarrow> nat \<Rightarrow> nat" where
  "deref_offset lv accounts k =
     (case lv of PerLoop \<Rightarrow> length accounts - 1 | PerIteration \<Rightarrow> k)"

definition Group_delete :: "loopvar \<Rightarrow> Group \<Rightarrow> string \<Rightarrow> error option \<times> Group" where
  "Group_delete lv g account =
     (case delete_loop (Accounts g) account 0 None of
        None \<Rightarrow> (Some ErrNoSuchAccount, g)
      | Some k \<Rightarrow>
          (let off = deref_offset lv (Accounts g) k
           in (None, g\<lparr>Accounts := take off (Accounts g) @ drop (off + 1) (Accounts g)\<rparr>)))"

section \<open>Account operations\<close>

text \<open>
  Modelled from the spec: \<open>Account.update\<close>, \<open>updateFieldName\<close> and \<open>updateFieldTag\<close>
  are not among the sources. Per section 4.1 of the spec \<open>update\<close> applies one field
  mutation to the account in place and has no error condition of its own; set-name and
  set-tag assign the field. The callers test the returned error, so the result keeps it.
\<close>

type_synonym fieldMutation = "Account \<Rightarrow> error option \<times> Account"


definition updateFieldTag :: "string \<Rightarrow> fieldMutation" where
  "updateFieldTag tag a = (None, a\<lparr>Tag := tag\<rparr>)"

definition Account_update :: "Group \<Rightarrow> nat \<Rightarrow> fieldMutation \<Rightarrow> error option \<times> Group" where
  "Account_update g p f =
     (case f (Accounts g ! p) of
        (err, a') \<Rightarrow> (err, g\<lparr>Accounts := (Accounts g)[p := a']\<rparr>))"

section \<open>State mutation protocol\<close>

type_synonym StateOption = "Group \<Rightarrow> string \<Rightarrow> error option \<times> Group"

definition OptAddAccount :: "Account \<Rightarrow> StateOption" where
  "OptAddAccount account = (\<lambda>g acc. Group_append g account)"


definition OptsAccTag :: "string \<Rightarrow> StateOption" where
  "OptsAccTag tag = (\<lambda>g acc.
     case Group_lookup g acc of
       Inl err \<Rightarrow> (Some err, g)
     | Inr account \<Rightarrow> Account_update g account (updateFieldTag tag))"

definition OptAccDelete :: "loopvar \<Rightarrow> StateOption" where
  "OptAccDelete lv = (\<lambda>g acc. Group_delete lv g acc)"

section \<open>Vault orchestrator\<close>

text \<open>
  The \<open>FileSystem\<close> interface, over a store of type \<open>'s\<close>. Its implementation is not
  part of the core; the existence checks and the read are queries of the store and
  \<open>Write\<close> returns the store it leaves behind. The \<open>context.Context\<close> argument carries
  no data and is left out.
\<close>

record 's FileSystem =
  GroupExists :: "'s \<Rightarrow> string \<Rightarrow> error option"
  VaultExists :: "'s \<Rightarrow> string \<Rightarrow> error option"
  ReadGroupVault :: "'s \<Rightarrow> string \<Rightarrow> error + bytes"
  Write :: "'s \<Rightarrow> string \<Rightarrow> bytes \<Rightarrow> error option \<times> 's"

text \<open>
  The vault codec of package \<open>security\<close> and \<open>json.Marshal\<close>, both external:
  \<open>DecryptVault(bytes, key, &group)\<close> either fails with some error or fills the group.
\<close>

record Codec =
  Marshal :: "Group \<Rightarrow> error + bytes"
  EncryptVault :: "bytes \<Rightarrow> string \<Rightarrow> error + bytes"
  DecryptVault :: "bytes \<Rightarrow> string \<Rightarrow> error + Group"

definition IsSetUp :: "'s FileSystem \<Rightarrow> 's \<Rightarrow> error option" where
  "IsSetUp fs s =
     (if GroupExists fs s ''default'' = None then Some ErrNotSetup
      else if VaultExists fs s ''default'' = None then Some ErrNotSetup
      else None)"

definition LoadGroup :: "'s FileSystem \<Rightarrow> Codec \<Rightarrow> 's \<Rightarrow> string \<Rightarrow> string \<Rightarrow> error + Group" where
  "LoadGroup fs cd s gid groupKey =
     (case ReadGroupVault fs s gid of
        Inl err \<Rightarrow> Inl err
      | Inr bytes \<Rightarrow>
          (case DecryptVault cd bytes groupKey of
             Inl err \<Rightarrow> Inl ErrWrongKey
           | Inr grp \<Rightarrow> Inr grp))"

definition serizalize :: "Codec \<Rightarrow> Group \<Rightarrow> error + bytes" where
  "serizalize cd g = Marshal cd g"

definition WriteGroup ::
  "'s FileSystem \<Rightarrow> Codec \<Rightarrow> 's \<Rightarrow> string \<Rightarrow> string \<Rightarrow> Group \<Rightarrow> error option \<times> 's" where
  "WriteGroup fs cd s gid groupKey grp =
     (case serizalize cd grp of
        Inl err \<Rightarrow> (Some err, s)
      | Inr serialized \<Rightarrow>
          (case EncryptVault cd serialized groupKey of
             Inl err \<Rightarrow> (Some err, s)
           | Inr encrypted \<Rightarrow> Write fs s gid encrypted))"

definition CheckGroupKey :: "'s FileSystem \<Rightarrow> Codec \<Rightarrow> 's \<Rightarrow> string \<Rightarrow> string \<Rightarrow> error option" where
  "CheckGroupKey fs cd s query groupKey =
     (case SplitQuery query of
        Inl err \<Rightarrow> Some err
      | Inr (gid, _) \<Rightarrow>
          (case ReadGroupVault fs s gid of
             Inl err \<Rightarrow> Some err
           | Inr bytes \<Rightarrow>
               (case DecryptVault cd bytes groupKey of
                  Inl err \<Rightarrow> Some ErrWrongKey
                | Inr grp \<Rightarrow> None)))"

definition GetAccount :: "'s FileSystem \<Rightarrow> Codec \<Rightarrow> 's \<Rightarrow> string \<Rightarrow> string \<Rightarrow> error + Account" where
  "GetAccount fs cd s query groupKey =
     (case SplitQuery query of
        Inl err \<Rightarrow> Inl err
      | Inr (gid, name) \<Rightarrow>
          (case LoadGroup fs cd s gid groupKey of
             Inl err \<Rightarrow> Inl err
           | Inr grp \<Rightarrow>
               (case Group_lookup grp name of
                  Inl err \<Rightarrow> Inl err
                | Inr p \<Rightarrow> Inr (Accounts grp ! p))))"

definition UpdateState ::
  "'s FileSystem \<Rightarrow> Codec \<Rightarrow> 's \<Rightarrow> string \<Rightarrow> string \<Rightarrow> StateOption \<Rightarrow> error option \<times> 's" where
  "UpdateState fs cd s query groupKey opt =
     (case SplitQuery query of
        Inl err \<Rightarrow> (Some err, s)
      | Inr (gid, name) \<Rightarrow>
          (case LoadGroup fs cd s gid groupKey of
             Inl err \<Rightarrow> (Some err, s)
           | Inr grp \<Rightarrow>
               (case opt grp name of
                  (Some err, _) \<Rightarrow> (Some err, s)
                | (None, grp') \<Rightarrow> WriteGroup fs cd s gid groupKey grp')))"

section \<open>Example data\<close>

text \<open>
  Modelled from the spec: an implementation of \<open>FileSystem\<close> for the examples, after
  section 6 of the spec. The store keeps the registered group ids and one blob per
  group; reading fails where there is no blob, writing overwrites in place, and the
  existence checks answer with a non-nil error where the thing exists.
\<close>

record store =
  registered :: "string list"
  vaults :: "string \<rightharpoonup> bytes"

definition memFS :: "store FileSystem" where
  "memFS =
     \<lparr>GroupExists = (\<lambda>s gid.
        if gid \<in> set (registered s) then Some (ErrExternal ''group exists'') else None),
      VaultExists = (\<lambda>s gid.
        if vaults s gid = None then None else Some (ErrExternal ''vault exists'')),
      ReadGroupVault = (\<lambda>s gid.
        case vaults s gid of None \<Rightarrow> Inl ErrNoSuchGroup | Some b \<Rightarrow> Inr b),
      Write = (\<lambda>s gid b. (None, s\<lparr>vaults := (vaults s)(gid \<mapsto> b)\<rparr>))\<rparr>"

definition acct :: "string \<Rightarrow> string \<Rightarrow> Account" where
  "acct n t = \<lparr>Name = n, Tag = t, Secret = ''s3cret'', CreatedOn = 0\<rparr>"

definition detective :: Group where
  "detective =
     \<lparr>GID = ''detective'',
      Accounts = [acct ''bakerstreet'' ''221b'', acct ''scotlandyard'' ''met'',
                  acct ''bakerstreet'' ''221c'']\<rparr>"

definition lonely :: Group where
  "lonely = \<lparr>GID = ''detective'', Accounts = [acct ''bakerstreet'' []]\<rparr>"

text \<open>
  A stand-in for the codec: every blob opens under the key \<open>K2\<close> to the group
  \<open>detective\<close> and fails to open under any other key; a group is marshalled to one
  byte per account and encryption leaves the bytes as they are.
\<close>

definition exampleCodec :: Codec where
  "exampleCodec =
     \<lparr>Marshal = (\<lambda>g. Inr (map (\<lambda>a. 1) (Accounts g))),
      EncryptVault = (\<lambda>b k. Inr b),
      DecryptVault = (\<lambda>b k.
        if k = ''K2'' then Inr detective
        else Inl (ErrExternal ''cipher: message authentication failed''))\<rparr>"

definition store0 :: store where
  "store0 = \<lparr>registered = [''default'', ''detective''],
             vaults = [''detective'' \<mapsto> [1, 1, 1]]\<rparr>"

text \<open>
  The invariant of the spec (section 3): no two accounts of a group share both name and
  tag.
\<close>

definition uniquePairs :: "Group \<Rightarrow> bool" where
  "uniquePairs g = distinct (map (\<lambda>a. (Name a, Tag a)) (Accounts g))"

section \<open>Properties of the query resolver\<close>

lemma dropWhile_no_sep: "sep \<notin> set a \<Longrightarrow> dropWhile (\<lambda>c. c \<noteq> sep) a = []"
  by (induction a) auto

lemma dropWhile_at_sep:
  "sep \<notin> set a \<Longrightarrow> dropWhile (\<lambda>c. c \<noteq> sep) (a @ sep # b) = sep # b"
  by (induction a) auto

lemma takeWhile_at_sep:
  "sep \<notin> set a \<Longrightarrow> takeWhile (\<lambda>c. c \<noteq> sep) (a @ sep # b) = a"
  by (induction a) auto

lemma strings_Split_no_sep: "sep \<notin> set s \<Longrightarrow> strings_Split s sep = [s]"
  by (subst strings_Split.simps) (simp add: dropWhile_no_sep)

lemma strings_Split_at_sep:
  "sep \<notin> set a \<Longrightarrow> strings_Split (a @ sep # b) sep = a # strings_Split b sep"
  by (subst strings_Split.simps) (simp add: dropWhile_at_sep takeWhile_at_sep)

lemma split_first_sep:
  "sep \<in> set s \<Longrightarrow> \<exists>a b. s = a @ sep # b \<and> sep \<notin> set a"
  by (metis split_list_first)

text \<open>\<open>strings.Split\<close> returns one piece more than there are separators.\<close>

lemma length_strings_Split: "length (strings_Split s sep) = Suc (count_list s sep)"
proof (induction s sep rule: strings_Split.induct)
  case (1 s sep)
  show ?case
  proof (cases "sep \<in> set s")
    case False
    then show ?thesis by (simp add: strings_Split_no_sep)
  next
    case True
    then obtain a b where s: "s = a @ sep # b" and a: "sep \<notin> set a"
      using split_first_sep by metis
    have d: "dropWhile (\<lambda>c. c \<noteq> sep) s = sep # b"
      using s a by (simp add: dropWhile_at_sep)
    have "length (strings_Split b sep) = Suc (count_list b sep)"
      using "1.IH" [OF d] .
    then show ?thesis using s a by (simp add: strings_Split_at_sep)
  qed
qed

lemma SplitQuery_Inr_iff:
  "SplitQuery q = Inr (a, b) \<longleftrightarrow>
     q = a @ ''@'' @ b \<and> CHR ''@'' \<notin> set a \<and> CHR ''@'' \<notin> set b"
proof
  let ?c = "CHR ''@''"
  assume r: "SplitQuery q = Inr (a, b)"
  from r have len: "length (strings_Split q ?c) = 2"
    and ab: "a = strings_Split q ?c ! 0" "b = strings_Split q ?c ! 1"
    by (auto simp: SplitQuery_def querySplitPoint_def Let_def split: if_splits)
  from len have cnt: "count_list q ?c = 1" by (simp add: length_strings_Split)
  then have "?c \<in> set q" by (metis count_list_0_iff zero_neq_one)
  then obtain x y where q: "q = x @ ?c # y" and x: "?c \<notin> set x"
    using split_first_sep by metis
  from cnt q x have "count_list y ?c = 0" by simp
  then have y: "?c \<notin> set y" by (simp add: count_list_0_iff)
  have "strings_Split q ?c = [x, y]"
    using q x y by (simp add: strings_Split_at_sep strings_Split_no_sep)
  with ab have "a = x" "b = y" by simp_all
  with q x y show "q = a @ ''@'' @ b \<and> ?c \<notin> set a \<and> ?c \<notin> set b" by simp
next
  let ?c = "CHR ''@''"
  assume "q = a @ ''@'' @ b \<and> ?c \<notin> set a \<and> ?c \<notin> set b"
  then have "strings_Split q ?c = [a, b]"
    by (simp add: strings_Split_at_sep strings_Split_no_sep)
  then show "SplitQuery q = Inr (a, b)"
    by (simp add: SplitQuery_def querySplitPoint_def)
qed

lemma SplitQuery_Inl_iff:
  "SplitQuery q = Inl e \<longleftrightarrow> e = ErrInvalidQuery \<and> count_list q (CHR ''@'') \<noteq> 1"
  by (auto simp: SplitQuery_def querySplitPoint_def Let_def length_strings_Split)

lemma SplitQuery_succeeds_iff:
  "(\<exists>a b. SplitQuery q = Inr (a, b)) \<longleftrightarrow> count_list q (CHR ''@'') = 1"
proof (cases "SplitQuery q")
  case (Inl e)
  then show ?thesis using SplitQuery_Inl_iff [of q e] by simp
next
  case (Inr p)
  obtain a b where p: "p = (a, b)" by (cases p)
  have "count_list q (CHR ''@'') = 1"
    using Inr p SplitQuery_Inr_iff [of q a b] by (auto simp: count_list_0_iff)
  then show ?thesis using Inr p by auto
qed

text \<open>
  C7. \<open>SplitQuery q\<close> succeeds exactly when \<open>q\<close> holds exactly one \<open>@\<close>, and then returns
  the bytes before it and the bytes behind it (either may be empty); with no \<open>@\<close> or
  more than one it fails with \<open>ErrInvalidQuery\<close> and with no other error. The three
  examples of the spec come out as stated.
\<close>

theorem SplitQuery_exactly_one_separator:
  "(SplitQuery q = Inr (a, b) \<longleftrightarrow>
      q = a @ ''@'' @ b \<and> CHR ''@'' \<notin> set a \<and> CHR ''@'' \<notin> set b)
   \<and> ((\<exists>x y. SplitQuery q = Inr (x, y)) \<longleftrightarrow> count_list q (CHR ''@'') = 1)
   \<and> (SplitQuery q = Inl ErrInvalidQuery \<longleftrightarrow> count_list q (CHR ''@'') \<noteq> 1)
   \<and> (SplitQuery q = Inl e \<longleftrightarrow> e = ErrInvalidQuery \<and> count_list q (CHR ''@'') \<noteq> 1)
   \<and> SplitQuery ''detective@bakerstreet'' = Inr (''detective'', ''bakerstreet'')
   \<and> SplitQuery ''detective'' = Inl ErrInvalidQuery
   \<and> SplitQuery ''a@b@c'' = Inl ErrInvalidQuery"
proof -
  have ex1: "SplitQuery ''detective@bakerstreet'' = Inr (''detective'', ''bakerstreet'')"
    by (simp add: SplitQuery_Inr_iff)
  have ex2: "SplitQuery ''detective'' = Inl ErrInvalidQuery"
    by (simp add: SplitQuery_Inl_iff)
  have ex3: "SplitQuery ''a@b@c'' = Inl ErrInvalidQuery"
    by (simp add: SplitQuery_Inl_iff)
  show ?thesis
    using SplitQuery_Inr_iff [of q a b] SplitQuery_succeeds_iff [of q]
      SplitQuery_Inl_iff [of q ErrInvalidQuery] SplitQuery_Inl_iff [of q e] ex1 ex2 ex3
    by simp
qed

theorem SplitQuery_exactly_one_separator_witness:
  "SplitQuery ''detective@'' = Inr (''detective'', [])
   \<and> SplitQuery ''@'' = Inr ([], [])
   \<and> SplitQuery [] = Inl ErrInvalidQuery"
  using SplitQuery_exactly_one_separator [of "''detective@''" "''detective''" "[]" ErrInvalidQuery]
    SplitQuery_exactly_one_separator [of "''@''" "[]" "[]" ErrInvalidQuery]
    SplitQuery_exactly_one_separator [of "[]" "[]" "[]" ErrInvalidQuery]
  by simp

section \<open>Properties of the group operations\<close>

lemma exists_loop_iff:
  "exists_loop as account \<longleftrightarrow> (\<exists>b\<in>set as. Name b = Name account \<and> Tag b = Tag account)"
  by (induction as) auto

lemma lookup_loop_Suc:
  "lookup_loop as n (Suc k) = map_sum id Suc (lookup_loop as n k)"
  by (induction as arbitrary: k) auto

lemma all_less_Suc_Cons:
  "(\<forall>j < Suc m. P ((a # as) ! j)) \<longleftrightarrow> P a \<and> (\<forall>j < m. P (as ! j))"
proof
  assume h: "\<forall>j < Suc m. P ((a # as) ! j)"
  have "P a" using h [rule_format, of 0] by simp
  moreover have "\<forall>j < m. P (as ! j)"
  proof (intro allI impI)
    fix j assume "j < m"
    then show "P (as ! j)" using h [rule_format, of "Suc j"] by simp
  qed
  ultimately show "P a \<and> (\<forall>j < m. P (as ! j))" ..
next
  assume h: "P a \<and> (\<forall>j < m. P (as ! j))"
  show "\<forall>j < Suc m. P ((a # as) ! j)"
  proof (intro allI impI)
    fix j assume "j < Suc m"
    then show "P ((a # as) ! j)" using h by (cases j) auto
  qed
qed

lemma lookup_loop_Inr:
  "lookup_loop as n 0 = Inr i \<longleftrightarrow>
     i < length as \<and> Name (as ! i) = n \<and> (\<forall>j < i. Name (as ! j) \<noteq> n)"
proof (induction as arbitrary: i)
  case Nil
  then show ?case by simp
next
  case (Cons a as)
  show ?case
  proof (cases i)
    case 0
    then show ?thesis by (cases "lookup_loop as n 0") (auto simp: lookup_loop_Suc)
  next
    case (Suc m)
    show ?thesis
    proof (cases "Name a = n")
      case True
      then show ?thesis using Suc by auto
    next
      case False
      have "lookup_loop (a # as) n 0 = Inr i \<longleftrightarrow> lookup_loop as n 0 = Inr m"
        using False Suc by (cases "lookup_loop as n 0") (simp_all add: lookup_loop_Suc)
      also have "\<dots> \<longleftrightarrow> m < length as \<and> Name (as ! m) = n \<and> (\<forall>j < m. Name (as ! j) \<noteq> n)"
        by (rule Cons.IH)
      also have "\<dots> \<longleftrightarrow> i < length (a # as) \<and> Name ((a # as) ! i) = n \<and>
          (\<forall>j < i. Name ((a # as) ! j) \<noteq> n)"
        unfolding Suc all_less_Suc_Cons [where P = "\<lambda>x. Name x \<noteq> n"] using False by simp
      finally show ?thesis .
    qed
  qed
qed

lemma lookup_loop_Inl:
  "lookup_loop as n k = Inl e \<longleftrightarrow> e = ErrNoSuchAccount \<and> (\<forall>a\<in>set as. Name a \<noteq> n)"
  by (induction as arbitrary: k) auto

lemma lookup_loop_names:
  "map Name as' = map Name as \<Longrightarrow> lookup_loop as' n k = lookup_loop as n k"
proof (induction as arbitrary: as' k)
  case Nil
  then show ?case by simp
next
  case (Cons a as)
  then obtain a' bs where as': "as' = a' # bs" "Name a' = Name a"
    and bs: "map Name bs = map Name as"
    by (cases as') auto
  have "lookup_loop bs n (Suc k) = lookup_loop as n (Suc k)"
    using bs by (rule Cons.IH)
  with as' show ?case by simp
qed


lemma Group_lookup_Inr_iff:
  "Group_lookup g n = Inr i \<longleftrightarrow>
     i < length (Accounts g) \<and> Name (Accounts g ! i) = n \<and>
     (\<forall>j < i. Name (Accounts g ! j) \<noteq> n)"
  unfolding Group_lookup_def by (rule lookup_loop_Inr)

lemma Group_lookup_Inl_iff:
  "Group_lookup g n = Inl e \<longleftrightarrow>
     e = ErrNoSuchAccount \<and> (\<forall>a\<in>set (Accounts g). Name a \<noteq> n)"
  unfolding Group_lookup_def by (rule lookup_loop_Inl)

text \<open>
  C2. \<open>Group.append\<close> puts the account at the end of the sequence exactly when no
  account of the group has both its name and its tag; in the other case it fails with
  \<open>ErrAccountExists\<close> and the group is as it was.
\<close>

theorem Group_append_unique_pair:
  "Group_append g a =
     (if \<exists>b\<in>set (Accounts g). Name b = Name a \<and> Tag b = Tag a
      then (Some ErrAccountExists, g)
      else (None, g\<lparr>Accounts := Accounts g @ [a]\<rparr>))
   \<and> (Group_append g a = (None, g\<lparr>Accounts := Accounts g @ [a]\<rparr>) \<longleftrightarrow>
        \<not> (\<exists>b\<in>set (Accounts g). Name b = Name a \<and> Tag b = Tag a))"
  by (simp add: Group_append_def Group_exists_def exists_loop_iff)

theorem Group_append_unique_pair_witness:
  "Group_append detective (acct ''bakerstreet'' ''221c'') = (Some ErrAccountExists, detective)
   \<and> Group_append lonely (acct ''bakerstreet'' ''221b'') =
       (None, \<lparr>GID = ''detective'',
               Accounts = [acct ''bakerstreet'' [], acct ''bakerstreet'' ''221b'']\<rparr>)"
  using Group_append_unique_pair [of detective "acct ''bakerstreet'' ''221c''"]
    Group_append_unique_pair [of lonely "acct ''bakerstreet'' ''221b''"]
  by (simp add: detective_def lonely_def acct_def)

text \<open>
  C9. \<open>Group.lookup\<close> returns the pointer at position \<open>i\<close> exactly when \<open>i\<close> is the
  first position whose account has the name; it fails, and then with
  \<open>ErrNoSuchAccount\<close>, exactly when no account has the name. The tag plays no part: two
  groups whose accounts carry the same names in the same order give the same answer.
\<close>

theorem Group_lookup_first_by_name:
  "(Group_lookup g n = Inr i \<longleftrightarrow>
      i < length (Accounts g) \<and> Name (Accounts g ! i) = n \<and>
      (\<forall>j < i. Name (Accounts g ! j) \<noteq> n))
   \<and> (Group_lookup g n = Inl e \<longleftrightarrow>
      e = ErrNoSuchAccount \<and> (\<forall>a\<in>set (Accounts g). Name a \<noteq> n))
   \<and> (map Name (Accounts g') = map Name (Accounts g) \<longrightarrow>
      Group_lookup g' n = Group_lookup g n)"
  using Group_lookup_Inr_iff [of g n i] Group_lookup_Inl_iff [of g n e]
    lookup_loop_names [of "Accounts g'" "Accounts g" n 0]
  by (simp add: Group_lookup_def)

theorem Group_lookup_first_by_name_witness:
  "Group_lookup detective ''bakerstreet'' = Inr 0
   \<and> Tag (Accounts detective ! 0) = ''221b''
   \<and> Group_lookup detective ''scotlandyard'' = Inr 1
   \<and> Group_lookup detective ''moriarty'' = Inl ErrNoSuchAccount
   \<and> Group_lookup (detective\<lparr>Accounts := map (\<lambda>a. a\<lparr>Tag := []\<rparr>) (Accounts detective)\<rparr>)
        ''scotlandyard'' = Inr 1"
  using Group_lookup_first_by_name [of detective "''bakerstreet''" 0 ErrNoSuchAccount detective]
    Group_lookup_first_by_name [of detective "''scotlandyard''" 1 ErrNoSuchAccount
      "detective\<lparr>Accounts := map (\<lambda>a. a\<lparr>Tag := []\<rparr>) (Accounts detective)\<rparr>"]
    Group_lookup_first_by_name [of detective "''moriarty''" 0 ErrNoSuchAccount detective]
  by (simp add: detective_def acct_def less_Suc_eq_0_disj)

lemma delete_loop_None_iff:
  "delete_loop as n i off = None \<longleftrightarrow> off = None \<and> (\<forall>a\<in>set as. Name a \<noteq> n)"
  by (induction as arbitrary: i off) auto

lemma Group_delete_absent:
  "\<forall>a\<in>set (Accounts g). Name a \<noteq> n \<Longrightarrow>
   Group_delete lv g n = (Some ErrNoSuchAccount, g)"
proof -
  assume "\<forall>a\<in>set (Accounts g). Name a \<noteq> n"
  then have "delete_loop (Accounts g) n 0 None = None"
    by (simp add: delete_loop_None_iff)
  then show ?thesis by (simp add: Group_delete_def)
qed

text \<open>
  With one loop variable for the whole loop, a successful \<open>delete\<close> removes the last
  account of the slice, whichever account has the name.
\<close>

lemma Group_delete_PerLoop:
  assumes "\<exists>a\<in>set (Accounts g). Name a = n"
  shows "Group_delete PerLoop g n = (None, g\<lparr>Accounts := butlast (Accounts g)\<rparr>)"
proof -
  from assms have "delete_loop (Accounts g) n 0 None \<noteq> None"
    by (simp add: delete_loop_None_iff)
  then obtain k where k: "delete_loop (Accounts g) n 0 None = Some k" by blast
  have "take (length (Accounts g) - 1) (Accounts g) @ drop (length (Accounts g) - 1 + 1) (Accounts g)
      = butlast (Accounts g)"
    by (simp add: butlast_conv_take)
  with k show ?thesis by (simp add: Group_delete_def deref_offset_def)
qed

text \<open>
  C3. The claim says \<open>Group.delete\<close> removes the first account with the name. In the
  group \<open>detective\<close> the first account named \<open>bakerstreet\<close> is at position 0 (the one
  \<open>lookup\<close> returns), yet \<open>delete\<close> removes the account at position 2 under either
  reading of the loop variable. With one loop variable for the whole loop it even
  removes an account with another name: from the two accounts \<open>bakerstreet\<close>,
  \<open>scotlandyard\<close> it deletes \<open>scotlandyard\<close> when asked for \<open>bakerstreet\<close>.
\<close>

theorem Group_delete_removes_last_not_first:
  "Group_lookup detective ''bakerstreet'' = Inr 0
   \<and> Group_delete PerLoop detective ''bakerstreet'' =
       (None, \<lparr>GID = ''detective'',
               Accounts = [acct ''bakerstreet'' ''221b'', acct ''scotlandyard'' ''met'']\<rparr>)
   \<and> Group_delete PerIteration detective ''bakerstreet'' =
       (None, \<lparr>GID = ''detective'',
               Accounts = [acct ''bakerstreet'' ''221b'', acct ''scotlandyard'' ''met'']\<rparr>)
   \<and> Group_delete PerLoop
       \<lparr>GID = ''detective'',
        Accounts = [acct ''bakerstreet'' ''221b'', acct ''scotlandyard'' ''met'']\<rparr>
       ''bakerstreet'' =
       (None, \<lparr>GID = ''detective'', Accounts = [acct ''bakerstreet'' ''221b'']\<rparr>)"
  by (simp add: Group_lookup_def Group_delete_def deref_offset_def detective_def acct_def)

section \<open>Properties of the mutations\<close>


lemma Account_update_updateFieldTag:
  "Account_update g p (updateFieldTag tag) =
     (None, g\<lparr>Accounts := (Accounts g)[p := (Accounts g ! p)\<lparr>Tag := tag\<rparr>]\<rparr>)"
  by (simp add: Account_update_def updateFieldTag_def)








text \<open>
  C8. \<open>OptsAccTag\<close> looks the target up by name and sets its tag, and does nothing
  else: it succeeds exactly when some account has the name of the query. So there is a
  group without duplicate (name, tag) pairs on which it succeeds and leaves two
  accounts with the same pair.
\<close>

theorem OptsAccTag_no_uniqueness_check:
  "OptsAccTag tag g acc =
     (case Group_lookup g acc of
        Inl e \<Rightarrow> (Some ErrNoSuchAccount, g)
      | Inr p \<Rightarrow>
          (None, g\<lparr>Accounts := (Accounts g)[p := (Accounts g ! p)\<lparr>Tag := tag\<rparr>]\<rparr>))
   \<and> (fst (OptsAccTag tag g acc) = None \<longleftrightarrow> (\<exists>a\<in>set (Accounts g). Name a = acc))
   \<and> (\<exists>g0 acc0 tag0 g1.
        uniquePairs g0 \<and> OptsAccTag tag0 g0 acc0 = (None, g1) \<and> \<not> uniquePairs g1)"
proof -
  have shape: "OptsAccTag tag g acc =
     (case Group_lookup g acc of
        Inl e \<Rightarrow> (Some ErrNoSuchAccount, g)
      | Inr p \<Rightarrow>
          (None, g\<lparr>Accounts := (Accounts g)[p := (Accounts g ! p)\<lparr>Tag := tag\<rparr>]\<rparr>))"
  proof (cases "Group_lookup g acc")
    case (Inl e)
    then have "e = ErrNoSuchAccount" by (simp add: Group_lookup_Inl_iff)
    with Inl show ?thesis by (simp add: OptsAccTag_def)
  next
    case (Inr p)
    then show ?thesis by (simp add: OptsAccTag_def Account_update_updateFieldTag)
  qed
  have ok: "fst (OptsAccTag tag g acc) = None \<longleftrightarrow> (\<exists>a\<in>set (Accounts g). Name a = acc)"
  proof (cases "Group_lookup g acc")
    case (Inl e)
    then have "\<forall>a\<in>set (Accounts g). Name a \<noteq> acc" by (simp add: Group_lookup_Inl_iff)
    then show ?thesis using shape Inl by simp
  next
    case (Inr p)
    then have "p < length (Accounts g)" "Name (Accounts g ! p) = acc"
      by (simp_all add: Group_lookup_Inr_iff)
    then have "\<exists>a\<in>set (Accounts g). Name a = acc" using nth_mem by blast
    then show ?thesis using shape Inr by simp
  qed
  have u0: "uniquePairs detective"
    by (simp add: uniquePairs_def detective_def acct_def)
  have step: "OptsAccTag ''221c'' detective ''bakerstreet'' =
      (None, detective\<lparr>Accounts := (Accounts detective)[0 := acct ''bakerstreet'' ''221c'']\<rparr>)"
    by (simp add: OptsAccTag_def Group_lookup_def Account_update_updateFieldTag
        detective_def acct_def)
  have u1: "\<not> uniquePairs
      (detective\<lparr>Accounts := (Accounts detective)[0 := acct ''bakerstreet'' ''221c'']\<rparr>)"
    by (simp add: uniquePairs_def detective_def acct_def)
  from u0 step u1 have "\<exists>g0 acc0 tag0 g1.
        uniquePairs g0 \<and> OptsAccTag tag0 g0 acc0 = (None, g1) \<and> \<not> uniquePairs g1"
    by blast
  with shape ok show ?thesis by simp
qed

theorem OptsAccTag_no_uniqueness_check_witness:
  "uniquePairs detective
   \<and> OptsAccTag ''221c'' detective ''bakerstreet'' =
       (None, \<lparr>GID = ''detective'',
               Accounts = [acct ''bakerstreet'' ''221c'', acct ''scotlandyard'' ''met'',
                           acct ''bakerstreet'' ''221c'']\<rparr>)
   \<and> \<not> uniquePairs \<lparr>GID = ''detective'',
               Accounts = [acct ''bakerstreet'' ''221c'', acct ''scotlandyard'' ''met'',
                           acct ''bakerstreet'' ''221c'']\<rparr>"
  using OptsAccTag_no_uniqueness_check [of "''221c''" detective "''bakerstreet''"]
  by (simp add: Group_lookup_def uniquePairs_def detective_def acct_def)

section \<open>Properties of the orchestrator\<close>

text \<open>
  C4, as stated, fails. In \<open>store0\<close> the group \<open>default\<close> is registered (the check
  returns a non-nil error) and has no vault blob: one of the two exists, and \<open>IsSetUp\<close>
  fails with \<open>ErrNotSetup\<close> all the same.
\<close>

theorem IsSetUp_not_only_when_both_missing:
  "GroupExists memFS store0 ''default'' = Some (ErrExternal ''group exists'')
   \<and> VaultExists memFS store0 ''default'' = None
   \<and> IsSetUp memFS store0 = Some ErrNotSetup
   \<and> \<not> (IsSetUp memFS store0 = Some ErrNotSetup \<longleftrightarrow>
          GroupExists memFS store0 ''default'' = None \<and>
          VaultExists memFS store0 ''default'' = None)"
  by (simp add: IsSetUp_def memFS_def store0_def)

text \<open>
  C4, amended. \<open>IsSetUp\<close> fails with \<open>ErrNotSetup\<close> exactly when \<open>GroupExists\<close> or
  \<open>VaultExists\<close> returns nil for \<open>default\<close>, that is when the metadata or the vault
  blob is missing; it succeeds exactly when both checks return a non-nil error.
\<close>

theorem IsSetUp_either_missing:
  "IsSetUp fs s =
     (if GroupExists fs s ''default'' = None \<or> VaultExists fs s ''default'' = None
      then Some ErrNotSetup else None)
   \<and> (IsSetUp fs s = Some ErrNotSetup \<longleftrightarrow>
        GroupExists fs s ''default'' = None \<or> VaultExists fs s ''default'' = None)
   \<and> (IsSetUp fs s = None \<longleftrightarrow>
        GroupExists fs s ''default'' \<noteq> None \<and> VaultExists fs s ''default'' \<noteq> None)"
  by (simp add: IsSetUp_def)

theorem IsSetUp_either_missing_witness:
  "IsSetUp memFS store0 = Some ErrNotSetup
   \<and> IsSetUp memFS (store0\<lparr>vaults := (vaults store0)(''default'' \<mapsto> [])\<rparr>) = None
   \<and> IsSetUp memFS \<lparr>registered = [], vaults = Map.empty\<rparr> = Some ErrNotSetup"
  using IsSetUp_either_missing [of memFS store0]
    IsSetUp_either_missing [of memFS "store0\<lparr>vaults := (vaults store0)(''default'' \<mapsto> [])\<rparr>"]
    IsSetUp_either_missing [of memFS "\<lparr>registered = [], vaults = Map.empty\<rparr>"]
  by (simp add: memFS_def store0_def)

lemma LoadGroup_decrypt_fails:
  "ReadGroupVault fs s gid = Inr b \<Longrightarrow> DecryptVault cd b key = Inl cause \<Longrightarrow>
   LoadGroup fs cd s gid key = Inl ErrWrongKey"
  by (simp add: LoadGroup_def)

lemma UpdateState_bad_query:
  "SplitQuery q = Inl e \<Longrightarrow> UpdateState fs cd s q key opt = (Some e, s)"
  by (simp add: UpdateState_def)

lemma UpdateState_load_fails:
  "SplitQuery q = Inr (gid, n) \<Longrightarrow> LoadGroup fs cd s gid key = Inl e \<Longrightarrow>
   UpdateState fs cd s q key opt = (Some e, s)"
  by (simp add: UpdateState_def)

lemma UpdateState_mutation_fails:
  "SplitQuery q = Inr (gid, n) \<Longrightarrow> LoadGroup fs cd s gid key = Inr g \<Longrightarrow>
   fst (opt g n) = Some e \<Longrightarrow> UpdateState fs cd s q key opt = (Some e, s)"
  by (cases "opt g n") (simp add: UpdateState_def)

lemma UpdateState_mutation_succeeds:
  "SplitQuery q = Inr (gid, n) \<Longrightarrow> LoadGroup fs cd s gid key = Inr g \<Longrightarrow>
   opt g n = (None, g') \<Longrightarrow>
   UpdateState fs cd s q key opt = WriteGroup fs cd s gid key g'"
  by (simp add: UpdateState_def)

text \<open>
  C1. When the query does not split, or loading or decrypting the group fails, or the
  mutation returns an error, \<open>UpdateState\<close> returns that error and the store is the one
  it started from: every read of a group vault gives the bytes it gave before.
\<close>

theorem UpdateState_failure_writes_nothing:
  assumes "SplitQuery q = Inl e \<or>
     (\<exists>gid n. SplitQuery q = Inr (gid, n) \<and>
        (LoadGroup fs cd s gid key = Inl e \<or>
         (\<exists>g. LoadGroup fs cd s gid key = Inr g \<and> fst (opt g n) = Some e)))"
  shows "UpdateState fs cd s q key opt = (Some e, s)
     \<and> ReadGroupVault fs (snd (UpdateState fs cd s q key opt)) gid' = ReadGroupVault fs s gid'"
proof -
  have "UpdateState fs cd s q key opt = (Some e, s)"
    using assms UpdateState_bad_query UpdateState_load_fails UpdateState_mutation_fails
    by metis
  then show ?thesis by simp
qed

theorem UpdateState_failure_writes_nothing_witness:
  "UpdateState memFS exampleCodec store0 ''detective'' ''K2''
       (OptAddAccount (acct ''moriarty'' ''prof'')) = (Some ErrInvalidQuery, store0)
   \<and> UpdateState memFS exampleCodec store0 ''detective@moriarty'' ''WRONG''
       (OptAddAccount (acct ''moriarty'' ''prof'')) = (Some ErrWrongKey, store0)
   \<and> UpdateState memFS exampleCodec store0 ''nobody@moriarty'' ''K2''
       (OptAddAccount (acct ''moriarty'' ''prof'')) = (Some ErrNoSuchGroup, store0)
   \<and> UpdateState memFS exampleCodec store0 ''detective@bakerstreet'' ''K2''
       (OptAddAccount (acct ''bakerstreet'' ''221b'')) = (Some ErrAccountExists, store0)
   \<and> UpdateState memFS exampleCodec store0 ''detective@moriarty'' ''K2''
       (OptsAccTag ''prof'') = (Some ErrNoSuchAccount, store0)
   \<and> ReadGroupVault memFS
        (snd (UpdateState memFS exampleCodec store0 ''detective@moriarty'' ''K2''
           (OptsAccTag ''prof''))) ''detective'' = Inr [1, 1, 1]"
proof -
  have q0: "SplitQuery ''detective'' = Inl ErrInvalidQuery"
    by (simp add: SplitQuery_Inl_iff)
  have q1: "SplitQuery ''detective@moriarty'' = Inr (''detective'', ''moriarty'')"
    by (simp add: SplitQuery_Inr_iff)
  have q2: "SplitQuery ''nobody@moriarty'' = Inr (''nobody'', ''moriarty'')"
    by (simp add: SplitQuery_Inr_iff)
  have q3: "SplitQuery ''detective@bakerstreet'' = Inr (''detective'', ''bakerstreet'')"
    by (simp add: SplitQuery_Inr_iff)
  have l1: "LoadGroup memFS exampleCodec store0 ''detective'' ''WRONG'' = Inl ErrWrongKey"
    by (simp add: LoadGroup_def memFS_def exampleCodec_def store0_def)
  have l2: "LoadGroup memFS exampleCodec store0 ''nobody'' ''K2'' = Inl ErrNoSuchGroup"
    by (simp add: LoadGroup_def memFS_def exampleCodec_def store0_def)
  have l3: "LoadGroup memFS exampleCodec store0 ''detective'' ''K2'' = Inr detective"
    by (simp add: LoadGroup_def memFS_def exampleCodec_def store0_def)
  have m3: "fst (OptAddAccount (acct ''bakerstreet'' ''221b'') detective ''bakerstreet'') =
      Some ErrAccountExists"
    by (simp add: OptAddAccount_def Group_append_def Group_exists_def detective_def acct_def)
  have m4: "fst (OptsAccTag ''prof'' detective ''moriarty'') = Some ErrNoSuchAccount"
    by (simp add: OptsAccTag_def Group_lookup_def detective_def acct_def)
  have r: "ReadGroupVault memFS store0 ''detective'' = Inr [1, 1, 1]"
    by (simp add: memFS_def store0_def)
  note t = UpdateState_failure_writes_nothing [where fs = memFS and cd = exampleCodec
      and s = store0]
  have "UpdateState memFS exampleCodec store0 ''detective'' ''K2''
       (OptAddAccount (acct ''moriarty'' ''prof'')) = (Some ErrInvalidQuery, store0)"
    using t [of "''detective''" ErrInvalidQuery] q0 by simp
  moreover have "UpdateState memFS exampleCodec store0 ''detective@moriarty'' ''WRONG''
       (OptAddAccount (acct ''moriarty'' ''prof'')) = (Some ErrWrongKey, store0)"
    using t [of "''detective@moriarty''" ErrWrongKey "''WRONG''"] q1 l1 by simp
  moreover have "UpdateState memFS exampleCodec store0 ''nobody@moriarty'' ''K2''
       (OptAddAccount (acct ''moriarty'' ''prof'')) = (Some ErrNoSuchGroup, store0)"
    using t [of "''nobody@moriarty''" ErrNoSuchGroup "''K2''"] q2 l2 by simp
  moreover have "UpdateState memFS exampleCodec store0 ''detective@bakerstreet'' ''K2''
       (OptAddAccount (acct ''bakerstreet'' ''221b'')) = (Some ErrAccountExists, store0)"
    using t [of "''detective@bakerstreet''" ErrAccountExists "''K2''"
        "OptAddAccount (acct ''bakerstreet'' ''221b'')"] q3 l3 m3 by simp
  moreover have "UpdateState memFS exampleCodec store0 ''detective@moriarty'' ''K2''
       (OptsAccTag ''prof'') = (Some ErrNoSuchAccount, store0)
     \<and> ReadGroupVault memFS
        (snd (UpdateState memFS exampleCodec store0 ''detective@moriarty'' ''K2''
           (OptsAccTag ''prof''))) ''detective'' = Inr [1, 1, 1]"
    using t [of "''detective@moriarty''" ErrNoSuchAccount "''K2''" "OptsAccTag ''prof''"
        "''detective''"] q1 l3 m4 r by simp
  ultimately show ?thesis using r by simp
qed

text \<open>
  C6. Whatever error \<open>DecryptVault\<close> fails with, \<open>LoadGroup\<close>, \<open>GetAccount\<close>,
  \<open>CheckGroupKey\<close> and \<open>UpdateState\<close> return \<open>ErrWrongKey\<close>; the cause does not appear
  in what they return.
\<close>

theorem decrypt_failure_is_WrongKey:
  assumes "SplitQuery q = Inr (gid, n)"
    and "ReadGroupVault fs s gid = Inr b"
    and "DecryptVault cd b key = Inl cause"
  shows "LoadGroup fs cd s gid key = Inl ErrWrongKey
     \<and> GetAccount fs cd s q key = Inl ErrWrongKey
     \<and> CheckGroupKey fs cd s q key = Some ErrWrongKey
     \<and> UpdateState fs cd s q key opt = (Some ErrWrongKey, s)"
proof -
  have l: "LoadGroup fs cd s gid key = Inl ErrWrongKey"
    using assms(2,3) by (rule LoadGroup_decrypt_fails)
  have g: "GetAccount fs cd s q key = Inl ErrWrongKey"
    using assms(1) l by (simp add: GetAccount_def)
  have c: "CheckGroupKey fs cd s q key = Some ErrWrongKey"
    using assms by (simp add: CheckGroupKey_def)
  have u: "UpdateState fs cd s q key opt = (Some ErrWrongKey, s)"
    using assms(1) l by (rule UpdateState_load_fails)
  from l g c u show ?thesis by simp
qed

theorem decrypt_failure_is_WrongKey_witness:
  "DecryptVault exampleCodec [1, 1, 1] ''WRONG'' =
       Inl (ErrExternal ''cipher: message authentication failed'')
   \<and> DecryptVault (exampleCodec\<lparr>DecryptVault := \<lambda>b k. Inl (ErrExternal ''unexpected end of JSON input'')\<rparr>)
       [1, 1, 1] ''K2'' = Inl (ErrExternal ''unexpected end of JSON input'')
   \<and> GetAccount memFS exampleCodec store0 ''detective@bakerstreet'' ''WRONG'' = Inl ErrWrongKey
   \<and> GetAccount memFS
       (exampleCodec\<lparr>DecryptVault := \<lambda>b k. Inl (ErrExternal ''unexpected end of JSON input'')\<rparr>)
       store0 ''detective@bakerstreet'' ''K2'' = Inl ErrWrongKey
   \<and> CheckGroupKey memFS exampleCodec store0 ''detective@bakerstreet'' ''WRONG'' =
       Some ErrWrongKey
   \<and> CheckGroupKey memFS
       (exampleCodec\<lparr>DecryptVault := \<lambda>b k. Inl (ErrExternal ''unexpected end of JSON input'')\<rparr>)
       store0 ''detective@bakerstreet'' ''K2'' = Some ErrWrongKey
   \<and> UpdateState memFS exampleCodec store0 ''detective@bakerstreet'' ''WRONG''
       (OptAccDelete PerLoop) = (Some ErrWrongKey, store0)"
proof -
  let ?cd = "exampleCodec\<lparr>DecryptVault := \<lambda>b k. Inl (ErrExternal ''unexpected end of JSON input'')\<rparr>"
  have q: "SplitQuery ''detective@bakerstreet'' = Inr (''detective'', ''bakerstreet'')"
    by (simp add: SplitQuery_Inr_iff)
  have r: "ReadGroupVault memFS store0 ''detective'' = Inr [1, 1, 1]"
    by (simp add: memFS_def store0_def)
  have d1: "DecryptVault exampleCodec [1, 1, 1] ''WRONG'' =
       Inl (ErrExternal ''cipher: message authentication failed'')"
    by (simp add: exampleCodec_def)
  have d2: "DecryptVault ?cd [1, 1, 1] ''K2'' = Inl (ErrExternal ''unexpected end of JSON input'')"
    by simp
  show ?thesis
    using decrypt_failure_is_WrongKey [OF q r d1, of "OptAccDelete PerLoop"]
      decrypt_failure_is_WrongKey [OF q r d2, of "OptAccDelete PerLoop"] d1 d2
    by simp
qed

text \<open>
  C10. \<open>OptAddAccount\<close> does not read the account name of the query: it is
  \<open>Group.append\<close> of its own account. \<open>UpdateState\<close> with it, on a query that splits
  into \<open>gid\<close> and \<open>x\<close>, is decided by the loaded group and the name and tag of the
  account alone, and two queries for the same group give the same result.
\<close>

theorem OptAddAccount_ignores_query_account:
  "OptAddAccount a g x = OptAddAccount a g y
   \<and> OptAddAccount a g x = Group_append g a
   \<and> (SplitQuery q = Inr (gid, x) \<longrightarrow>
        UpdateState fs cd s q key (OptAddAccount a) =
          (case LoadGroup fs cd s gid key of
             Inl err \<Rightarrow> (Some err, s)
           | Inr g \<Rightarrow>
               (if \<exists>b\<in>set (Accounts g). Name b = Name a \<and> Tag b = Tag a
                then (Some ErrAccountExists, s)
                else WriteGroup fs cd s gid key (g\<lparr>Accounts := Accounts g @ [a]\<rparr>))))
   \<and> (CHR ''@'' \<notin> set gid \<and> CHR ''@'' \<notin> set x \<and> CHR ''@'' \<notin> set y \<longrightarrow>
        UpdateState fs cd s (gid @ ''@'' @ x) key (OptAddAccount a) =
        UpdateState fs cd s (gid @ ''@'' @ y) key (OptAddAccount a))"
proof -
  have same: "OptAddAccount a g x = OptAddAccount a g y" for g x y
    by (simp add: OptAddAccount_def)
  have app: "OptAddAccount a g x = Group_append g a" for g x
    by (simp add: OptAddAccount_def)
  have shape: "UpdateState fs cd s q key (OptAddAccount a) =
          (case LoadGroup fs cd s gid key of
             Inl err \<Rightarrow> (Some err, s)
           | Inr g \<Rightarrow>
               (if \<exists>b\<in>set (Accounts g). Name b = Name a \<and> Tag b = Tag a
                then (Some ErrAccountExists, s)
                else WriteGroup fs cd s gid key (g\<lparr>Accounts := Accounts g @ [a]\<rparr>)))"
    if q: "SplitQuery q = Inr (gid, x)" for q x
  proof (cases "LoadGroup fs cd s gid key")
    case (Inl err)
    with q show ?thesis by (simp add: UpdateState_def)
  next
    case (Inr g)
    show ?thesis
    proof (cases "\<exists>b\<in>set (Accounts g). Name b = Name a \<and> Tag b = Tag a")
      case True
      then have "OptAddAccount a g x = (Some ErrAccountExists, g)"
        by (simp add: app Group_append_def Group_exists_def exists_loop_iff)
      with q Inr True show ?thesis by (auto simp: UpdateState_def)
    next
      case False
      then have "OptAddAccount a g x = (None, g\<lparr>Accounts := Accounts g @ [a]\<rparr>)"
        by (simp add: app Group_append_def Group_exists_def exists_loop_iff)
      with q Inr False show ?thesis by (auto simp: UpdateState_def)
    qed
  qed
  have two: "UpdateState fs cd s (gid @ ''@'' @ x) key (OptAddAccount a) =
        UpdateState fs cd s (gid @ ''@'' @ y) key (OptAddAccount a)"
    if h: "CHR ''@'' \<notin> set gid \<and> CHR ''@'' \<notin> set x \<and> CHR ''@'' \<notin> set y"
  proof -
    have "SplitQuery (gid @ ''@'' @ x) = Inr (gid, x)" "SplitQuery (gid @ ''@'' @ y) = Inr (gid, y)"
      using h by (simp_all add: SplitQuery_Inr_iff)
    then show ?thesis using shape by simp
  qed
  show ?thesis using same app shape two by blast
qed

theorem OptAddAccount_ignores_query_account_witness:
  "UpdateState memFS exampleCodec store0 ''detective@anything'' ''K2''
       (OptAddAccount (acct ''moriarty'' ''prof'')) =
     (None, store0\<lparr>vaults := (vaults store0)(''detective'' \<mapsto> [1, 1, 1, 1])\<rparr>)
   \<and> UpdateState memFS exampleCodec store0 ''detective@anything'' ''K2''
       (OptAddAccount (acct ''moriarty'' ''prof'')) =
     UpdateState memFS exampleCodec store0 ''detective@moriarty'' ''K2''
       (OptAddAccount (acct ''moriarty'' ''prof''))
   \<and> UpdateState memFS exampleCodec store0 ''detective@moriarty'' ''K2''
       (OptAddAccount (acct ''bakerstreet'' ''221b'')) = (Some ErrAccountExists, store0)"
proof -
  have q: "SplitQuery ''detective@anything'' = Inr (''detective'', ''anything'')"
    "SplitQuery ''detective@moriarty'' = Inr (''detective'', ''moriarty'')"
    by (simp_all add: SplitQuery_Inr_iff)
  have l: "LoadGroup memFS exampleCodec store0 ''detective'' ''K2'' = Inr detective"
    by (simp add: LoadGroup_def memFS_def exampleCodec_def store0_def)
  have w: "WriteGroup memFS exampleCodec store0 ''detective'' ''K2''
      (detective\<lparr>Accounts := Accounts detective @ [acct ''moriarty'' ''prof'']\<rparr>) =
      (None, store0\<lparr>vaults := (vaults store0)(''detective'' \<mapsto> [1, 1, 1, 1])\<rparr>)"
    by (simp add: WriteGroup_def serizalize_def memFS_def exampleCodec_def detective_def)
  have n: "\<not> (\<exists>b\<in>set (Accounts detective).
      Name b = Name (acct ''moriarty'' ''prof'') \<and> Tag b = Tag (acct ''moriarty'' ''prof''))"
    by (simp add: detective_def acct_def)
  have y: "\<exists>b\<in>set (Accounts detective).
      Name b = Name (acct ''bakerstreet'' ''221b'') \<and> Tag b = Tag (acct ''bakerstreet'' ''221b'')"
    by (simp add: detective_def acct_def)
  show ?thesis
    using OptAddAccount_ignores_query_account [of "acct ''moriarty'' ''prof''" detective
        "''anything''" "''moriarty''" "''detective@anything''" "''detective''" memFS
        exampleCodec store0 "''K2''"]
      OptAddAccount_ignores_query_account [of "acct ''moriarty'' ''prof''" detective
        "''moriarty''" "''moriarty''" "''detective@moriarty''" "''detective''" memFS
        exampleCodec store0 "''K2''"]
      OptAddAccount_ignores_query_account [of "acct ''bakerstreet'' ''221b''" detective
        "''moriarty''" "''moriarty''" "''detective@moriarty''" "''detective''" memFS
        exampleCodec store0 "''K2''"]
      q l w n y
    by simp
qed

end
